theory Spec2Isabelle
  imports Complex_Main "HOL-Library.AList"
begin

section \<open>Python values, dictionaries and failures\<close>

text \<open>
  The classifier of \<^verbatim>\<open>naive_bayes.py\<close> works on Python dictionaries, integers, strings
  and floats.  A dictionary is modelled by the list of its items in iteration order (CPython
  keeps insertion order): a lookup is \<^const>\<open>map_of\<close>, and the assignment \<^verbatim>\<open>d[k] = v\<close> is
  \<^const>\<open>AList.update\<close>, which replaces the value of a present key in place and appends an
  absent key at the end.  Python integers are \<^typ>\<open>int\<close>.  The floats that hold
  probabilities and log scores are idealised as \<^typ>\<open>real\<close> numbers: rounding and overflow
  of the float arithmetic are not modelled.  Every exception the interpreter can raise in the
  modelled code is a value of \<open>error\<close>.
\<close>

datatype error = KeyError | AttributeError | TypeError | ZeroDivisionError | ValueError | NameError

type_synonym ('k, 'v) dict = "('k \<times> 'v) list"

definition bind_res :: "error + 'a \<Rightarrow> ('a \<Rightarrow> error + 'b) \<Rightarrow> error + 'b" where
  "bind_res m f = (case m of Inl e \<Rightarrow> Inl e | Inr x \<Rightarrow> f x)"

text \<open>A \<^verbatim>\<open>for\<close> loop whose body may raise: the first exception ends the loop.\<close>

fun for_each :: "('s \<Rightarrow> 'a \<Rightarrow> error + 's) \<Rightarrow> 'a list \<Rightarrow> 's \<Rightarrow> error + 's" where
  "for_each body [] s = Inr s"
| "for_each body (x # xs) s =
     (case body s x of Inl e \<Rightarrow> Inl e | Inr s' \<Rightarrow> for_each body xs s')"

text \<open>\<^verbatim>\<open>d[k]\<close> as an expression: a missing key raises KeyError.\<close>

definition dict_get :: "('k, 'v) dict \<Rightarrow> 'k \<Rightarrow> error + 'v" where
  "dict_get d k = (case map_of d k of None \<Rightarrow> Inl KeyError | Some v \<Rightarrow> Inr v)"

text \<open>Float division and \<^verbatim>\<open>math.log\<close>, with the exceptions they raise.\<close>

definition py_div :: "real \<Rightarrow> real \<Rightarrow> error + real" where
  "py_div a b = (if b = 0 then Inl ZeroDivisionError else Inr (a / b))"

definition py_log :: "real \<Rightarrow> error + real" where
  "py_log x = (if x \<le> 0 then Inl ValueError else Inr (ln x))"

subsection \<open>Strings\<close>

text \<open>
  \<^verbatim>\<open>str.lower\<close> on the ASCII letters (characters outside \<^verbatim>\<open>A-Z\<close> are kept), and
  \<^verbatim>\<open>str.split(" ")\<close>, which cuts at every single space and so yields empty tokens
  between adjacent spaces and one empty token for the empty string.
\<close>

definition lower_char :: "char \<Rightarrow> char" where
  "lower_char c =
     (let n = (of_char c :: nat) in if 65 \<le> n \<and> n \<le> 90 then char_of (n + 32) else c)"

definition lower :: "string \<Rightarrow> string" where
  "lower s = map lower_char s"

fun split_sp :: "string \<Rightarrow> string list" where
  "split_sp [] = [[]]"
| "split_sp (c # cs) =
     (if c = CHR '' '' then [] # split_sp cs
      else (case split_sp cs of [] \<Rightarrow> [[c]] | w # ws \<Rightarrow> (c # w) # ws))"

section \<open>Training: \<^verbatim>\<open>parse_training_data\<close>\<close>

text \<open>
  A value of the \<^verbatim>\<open>word_counts\<close> dictionary is either the word table of a class (a
  dictionary from token to count) or the integer stored under the key \<^verbatim>\<open>'total'\<close>.
\<close>

datatype wc_value = WordDict "(string, int) dict" | WordTotal int

type_synonym corpus = "(string, string list) dict"
type_synonym model = "int \<times> (string, wc_value) dict \<times> (string, int) dict"

text \<open>The local variables of \<^verbatim>\<open>parse_training_data\<close>.\<close>

record train_state =
  vocab_set :: "string list"
  word_counts :: "(string, wc_value) dict"
  class_counts :: "(string, int) dict"
  class_total :: int
  word_total :: int

text \<open>
  The body of the loop over the words of a document (source lines 34 to 46).  The set
  \<^verbatim>\<open>vocab_set\<close> is kept as a list without repetitions.
\<close>

definition word_step :: "string \<Rightarrow> train_state \<Rightarrow> string \<Rightarrow> error + train_state" where
  "word_step cls_name s word_orig =
     (let word = lower word_orig;
          s1 = s\<lparr>vocab_set := List.insert word (vocab_set s), word_total := word_total s + 1\<rparr>
      in bind_res (dict_get (word_counts s1) cls_name) (\<lambda>entry.
           case entry of
             WordTotal t \<Rightarrow> Inl AttributeError
           | WordDict d \<Rightarrow>
               (case map_of d word of
                  Some n \<Rightarrow>
                    if n \<noteq> 0
                    then Inr (s1\<lparr>word_counts :=
                           AList.update cls_name (WordDict (AList.update word (n + 1) d)) (word_counts s1)\<rparr>)
                    else Inr (s1\<lparr>word_counts :=
                           AList.update cls_name (WordDict (AList.update word 1 d)) (word_counts s1)\<rparr>)
                | None \<Rightarrow>
                    Inr (s1\<lparr>word_counts :=
                           AList.update cls_name (WordDict (AList.update word 1 d)) (word_counts s1)\<rparr>))))"

text \<open>The body of the loop over the documents of a class (source lines 27 to 46).\<close>

definition doc_step :: "string \<Rightarrow> train_state \<Rightarrow> string \<Rightarrow> error + train_state" where
  "doc_step cls_name s doc =
     bind_res (dict_get (class_counts s) cls_name) (\<lambda>n.
       for_each (word_step cls_name) (split_sp doc)
         (s\<lparr>class_counts := AList.update cls_name (n + 1) (class_counts s),
            class_total := class_total s + 1\<rparr>))"

text \<open>The body of the loop over the classes (source lines 21 to 49).\<close>

definition class_step :: "train_state \<Rightarrow> string \<times> string list \<Rightarrow> error + train_state" where
  "class_step s item =
     (case item of (cls_name, docs) \<Rightarrow>
        bind_res
          (for_each (doc_step cls_name) docs
             (s\<lparr>class_counts := AList.update cls_name 0 (class_counts s),
                word_counts := AList.update cls_name (WordDict []) (word_counts s),
                word_total := 0\<rparr>))
          (\<lambda>s'. Inr (s'\<lparr>word_counts :=
                   AList.update ''total'' (WordTotal (word_total s')) (word_counts s')\<rparr>)))"

definition init_state :: train_state where
  "init_state =
     \<lparr>vocab_set = [], word_counts = [], class_counts = [], class_total = 0, word_total = 0\<rparr>"

definition parse_training_data :: "corpus \<Rightarrow> error + model" where
  "parse_training_data data_obj =
     bind_res (for_each class_step data_obj init_state) (\<lambda>s.
       Inr (int (length (vocab_set s)),
            word_counts s,
            AList.update ''total'' (class_total s) (class_counts s)))"

section \<open>Scoring: \<^verbatim>\<open>calculate_probability\<close>\<close>

text \<open>Source lines 87 to 89: the count of a word in a class table, 0 when absent.\<close>

definition word_instance_of :: "(string, int) dict \<Rightarrow> string \<Rightarrow> int" where
  "word_instance_of d word =
     (case map_of d word of None \<Rightarrow> 0 | Some n \<Rightarrow> if n = 0 then 0 else n)"

text \<open>
  Source lines 92 and 93: the argument handed to \<^verbatim>\<open>math.log\<close> for one token,
  \<^verbatim>\<open>(word_instance + 1) / ((word_counter['total'] + vocab)*1.0)\<close>.
\<close>

definition likelihood :: "(string, wc_value) dict \<Rightarrow> int \<Rightarrow> int \<Rightarrow> error + real" where
  "likelihood word_counter vocab word_instance =
     bind_res (dict_get word_counter ''total'') (\<lambda>tot.
       case tot of
         WordDict d \<Rightarrow> Inl TypeError
       | WordTotal t \<Rightarrow> py_div (real_of_int (word_instance + 1)) (real_of_int (t + vocab) * 1))"

text \<open>The body of the loop over the words of a test document (source lines 83 to 93).\<close>

definition score_word_step ::
  "(string, wc_value) dict \<Rightarrow> int \<Rightarrow> string \<Rightarrow> wc_value \<Rightarrow>
   (string, real) dict \<Rightarrow> string \<Rightarrow> error + (string, real) dict" where
  "score_word_step word_counter vocab doc_cls entry probabilities word_orig =
     (let word = lower word_orig in
      case entry of
        WordTotal t \<Rightarrow> Inl AttributeError
      | WordDict d \<Rightarrow>
          bind_res (dict_get probabilities doc_cls) (\<lambda>p.
          bind_res (likelihood word_counter vocab (word_instance_of d word)) (\<lambda>q.
          bind_res (py_log q) (\<lambda>l.
            Inr (AList.update doc_cls (p + l) probabilities)))))"

text \<open>The body of the loop over the classes of the model (source lines 73 to 93).\<close>

definition score_class_step ::
  "(string, wc_value) dict \<Rightarrow> int \<Rightarrow> (string, int) dict \<Rightarrow> string \<Rightarrow>
   (string, real) dict \<Rightarrow> string \<times> wc_value \<Rightarrow> error + (string, real) dict" where
  "score_class_step word_counter vocab class_count doc probabilities item =
     (case item of (doc_cls, entry) \<Rightarrow>
        if doc_cls = ''total'' then Inr probabilities
        else
          bind_res (dict_get class_count doc_cls) (\<lambda>n.
          bind_res (dict_get class_count ''total'') (\<lambda>m.
          bind_res (py_div (real_of_int n) (real_of_int m * 1)) (\<lambda>q.
          bind_res (py_log q) (\<lambda>l.
            for_each (score_word_step word_counter vocab doc_cls entry) (split_sp doc)
              (AList.update doc_cls l probabilities))))))"

text \<open>The body of the loop over the test documents (source lines 69 to 96).\<close>

definition score_doc_step ::
  "(string, wc_value) dict \<Rightarrow> int \<Rightarrow> (string, int) dict \<Rightarrow>
   (string, real) dict list \<Rightarrow> string \<Rightarrow> error + (string, real) dict list" where
  "score_doc_step word_counter vocab class_count rslt doc =
     bind_res (for_each (score_class_step word_counter vocab class_count doc) word_counter [])
       (\<lambda>probabilities. Inr (rslt @ [probabilities]))"

definition calculate_probability ::
  "(string, wc_value) dict \<Rightarrow> int \<Rightarrow> (string, int) dict \<Rightarrow> string list \<Rightarrow>
   error + (string, real) dict list" where
  "calculate_probability word_counter vocab class_count test_documents =
     for_each (score_doc_step word_counter vocab class_count) test_documents []"

section \<open>Selection: \<^verbatim>\<open>predict\<close> and \<^verbatim>\<open>naive_bayes_text\<close>\<close>

text \<open>
  The body of the loop over the scores of one document (source lines 119 to 122); the pair
  is \<^verbatim>\<open>(max_prob, max_cls)\<close>, both \<^verbatim>\<open>None\<close> before the loop.
\<close>

definition select_step ::
  "('s::linorder) option \<times> string option \<Rightarrow> string \<times> 's \<Rightarrow> 's option \<times> string option" where
  "select_step acc item =
     (case acc of (max_prob, max_cls) \<Rightarrow>
      case item of (cls_name, prob) \<Rightarrow>
        (case max_prob of
           None \<Rightarrow> (Some prob, Some cls_name)
         | Some m \<Rightarrow> if prob > m then (Some prob, Some cls_name) else (max_prob, max_cls)))"

definition select_class :: "(string, 's::linorder) dict \<Rightarrow> string option" where
  "select_class prob_obj = snd (foldl select_step (None, None) prob_obj)"

definition predict :: "model \<Rightarrow> string list \<Rightarrow> error + string option list" where
  "predict parsed_train_data test_data =
     (case parsed_train_data of (vocab, wcs, ccs) \<Rightarrow>
        bind_res (calculate_probability wcs vocab ccs test_data) (\<lambda>probabilities.
          Inr (foldl (\<lambda>rslt_classes prob_obj. rslt_classes @ [select_class prob_obj])
                 [] probabilities)))"

text \<open>
  \<^verbatim>\<open>naive_bayes_text\<close> (source lines 129 to 136) does not read its parameter
  \<^verbatim>\<open>train_data\<close>: line 135 parses the name \<^verbatim>\<open>training_data\<close>, which is looked up
  among the globals of the module.  The first argument of the model is that global binding,
  \<^const>\<open>None\<close> when the module defines no such name (the function was imported).
\<close>

definition naive_bayes_text ::
  "corpus option \<Rightarrow> corpus \<Rightarrow> string list \<Rightarrow> error + string option list" where
  "naive_bayes_text global_training_data train_data test_data =
     (case global_training_data of
        None \<Rightarrow> Inl NameError
      | Some training_data \<Rightarrow>
          bind_res (parse_training_data training_data) (\<lambda>parsed_obj.
            predict parsed_obj test_data))"

section \<open>What the training loops compute\<close>

text \<open>
  The functions of this section are not in the source: they describe the result of each
  training loop in closed form, and the lemmas below show that the loops compute exactly
  that.  \<open>class_tokens docs\<close> are the token occurrences of a class in the order they are
  read, \<open>count_tokens\<close> builds a class's word table from them, \<open>add_vocab\<close> extends the
  vocabulary, and \<open>train_class\<close> is the effect of one round of the loop over the classes.
\<close>

definition bump :: "(string, int) dict \<Rightarrow> string \<Rightarrow> (string, int) dict" where
  "bump d w = AList.update w (case map_of d w of None \<Rightarrow> 1 | Some n \<Rightarrow> if n \<noteq> 0 then n + 1 else 1) d"

definition class_tokens :: "string list \<Rightarrow> string list" where
  "class_tokens docs = map lower (concat (map split_sp docs))"

definition count_tokens :: "string list \<Rightarrow> (string, int) dict \<Rightarrow> (string, int) dict" where
  "count_tokens ws d = foldl bump d ws"

definition add_vocab :: "string list \<Rightarrow> string list \<Rightarrow> string list" where
  "add_vocab ws vs = foldl (\<lambda>vs w. List.insert w vs) vs ws"

definition train_class :: "train_state \<Rightarrow> string \<times> string list \<Rightarrow> train_state" where
  "train_class s item =
     s\<lparr>class_counts := AList.update (fst item) (int (length (snd item))) (class_counts s),
       class_total := class_total s + int (length (snd item)),
       vocab_set := add_vocab (class_tokens (snd item)) (vocab_set s),
       word_total := int (length (class_tokens (snd item))),
       word_counts := AList.update ''total'' (WordTotal (int (length (class_tokens (snd item)))))
          (AList.update (fst item) (WordDict (count_tokens (class_tokens (snd item)) []))
             (word_counts s))\<rparr>"

text \<open>Every count of a class table is at least 1; the stored word total is not negative.\<close>

definition counts_pos :: "(string, wc_value) dict \<Rightarrow> bool" where
  "counts_pos wcs =
     (\<forall>item \<in> set wcs. case snd item of
        WordDict d \<Rightarrow> (\<forall>e \<in> set d. 1 \<le> snd e)
      | WordTotal t \<Rightarrow> 0 \<le> t)"

text \<open>
  The number of token occurrences in the documents of a class and in a whole corpus, and
  the sum of the document counts of the classes other than the key \<^verbatim>\<open>'total'\<close>.
\<close>

definition token_occurrences :: "string list \<Rightarrow> int" where
  "token_occurrences docs = int (length (concat (map split_sp docs)))"

definition corpus_token_occurrences :: "corpus \<Rightarrow> int" where
  "corpus_token_occurrences data_obj = (\<Sum>item\<leftarrow>data_obj. token_occurrences (snd item))"

definition real_class_sum :: "(string, int) dict \<Rightarrow> int" where
  "real_class_sum ccs = sum_list (map snd (filter (\<lambda>item. fst item \<noteq> ''total'') ccs))"

section \<open>The training loops never fail\<close>

lemma for_each_append:
  "for_each body (xs @ ys) s = bind_res (for_each body xs s) (for_each body ys)"
  by (induction xs arbitrary: s) (auto simp: bind_res_def split: sum.splits)

lemma word_step_ok:
  assumes "map_of (word_counts s) cls = Some (WordDict d)"
  shows "word_step cls s w =
    Inr (s\<lparr>vocab_set := List.insert (lower w) (vocab_set s),
           word_total := word_total s + 1,
           word_counts := AList.update cls (WordDict (bump d (lower w))) (word_counts s)\<rparr>)"
  using assms
  by (simp add: word_step_def Let_def bind_res_def dict_get_def bump_def split: option.splits)

lemma word_loop:
  assumes "map_of (word_counts s) cls = Some (WordDict d)"
  shows "for_each (word_step cls) ws s =
    Inr (s\<lparr>vocab_set := add_vocab (map lower ws) (vocab_set s),
           word_total := word_total s + int (length ws),
           word_counts := AList.update cls (WordDict (count_tokens (map lower ws) d)) (word_counts s)\<rparr>)"
  using assms
proof (induction ws arbitrary: s d)
  case Nil
  then show ?case by (simp add: add_vocab_def count_tokens_def update_triv)
next
  case (Cons w ws)
  let ?s = "s\<lparr>vocab_set := List.insert (lower w) (vocab_set s),
           word_total := word_total s + 1,
           word_counts := AList.update cls (WordDict (bump d (lower w))) (word_counts s)\<rparr>"
  have m: "map_of (word_counts ?s) cls = Some (WordDict (bump d (lower w)))"
    by (simp add: update_conv')
  show ?case
    by (simp add: word_step_ok [OF Cons.prems] Cons.IH [OF m] add_vocab_def count_tokens_def)
qed

lemma doc_step_ok:
  assumes "map_of (class_counts s) cls = Some n"
    and "map_of (word_counts s) cls = Some (WordDict d)"
  shows "doc_step cls s doc =
    Inr (s\<lparr>class_counts := AList.update cls (n + 1) (class_counts s),
           class_total := class_total s + 1,
           vocab_set := add_vocab (map lower (split_sp doc)) (vocab_set s),
           word_total := word_total s + int (length (split_sp doc)),
           word_counts := AList.update cls (WordDict (count_tokens (map lower (split_sp doc)) d)) (word_counts s)\<rparr>)"
proof -
  let ?s = "s\<lparr>class_counts := AList.update cls (n + 1) (class_counts s),
            class_total := class_total s + 1\<rparr>"
  have m: "map_of (word_counts ?s) cls = Some (WordDict d)"
    using assms(2) by simp
  show ?thesis
    by (simp add: doc_step_def bind_res_def dict_get_def assms(1) word_loop [OF m])
qed

lemma add_vocab_append: "add_vocab (xs @ ys) vs = add_vocab ys (add_vocab xs vs)"
  by (simp add: add_vocab_def)

lemma count_tokens_append: "count_tokens (xs @ ys) d = count_tokens ys (count_tokens xs d)"
  by (simp add: count_tokens_def)

lemma doc_loop:
  assumes "map_of (class_counts s) cls = Some n"
    and "map_of (word_counts s) cls = Some (WordDict d)"
  shows "for_each (doc_step cls) docs s =
    Inr (s\<lparr>class_counts := AList.update cls (n + int (length docs)) (class_counts s),
           class_total := class_total s + int (length docs),
           vocab_set := add_vocab (class_tokens docs) (vocab_set s),
           word_total := word_total s + int (length (class_tokens docs)),
           word_counts := AList.update cls (WordDict (count_tokens (class_tokens docs) d)) (word_counts s)\<rparr>)"
  using assms
proof (induction docs arbitrary: s n d)
  case Nil
  then show ?case
    by (simp add: add_vocab_def count_tokens_def class_tokens_def update_triv)
next
  case (Cons doc docs)
  let ?s = "s\<lparr>class_counts := AList.update cls (n + 1) (class_counts s),
           class_total := class_total s + 1,
           vocab_set := add_vocab (map lower (split_sp doc)) (vocab_set s),
           word_total := word_total s + int (length (split_sp doc)),
           word_counts := AList.update cls (WordDict (count_tokens (map lower (split_sp doc)) d)) (word_counts s)\<rparr>"
  have c: "map_of (class_counts ?s) cls = Some (n + 1)"
    by (simp add: update_conv')
  have m: "map_of (word_counts ?s) cls = Some (WordDict (count_tokens (map lower (split_sp doc)) d))"
    by (simp add: update_conv')
  show ?case
    by (simp add: doc_step_ok [OF Cons.prems] Cons.IH [OF c m] class_tokens_def
        add_vocab_append count_tokens_append add.assoc)
qed

lemma class_step_ok:
  "class_step s (cls, docs) =
    Inr (s\<lparr>class_counts := AList.update cls (int (length docs)) (class_counts s),
           class_total := class_total s + int (length docs),
           vocab_set := add_vocab (class_tokens docs) (vocab_set s),
           word_total := int (length (class_tokens docs)),
           word_counts := AList.update ''total'' (WordTotal (int (length (class_tokens docs))))
              (AList.update cls (WordDict (count_tokens (class_tokens docs) [])) (word_counts s))\<rparr>)"
proof -
  let ?s = "s\<lparr>class_counts := AList.update cls 0 (class_counts s),
                word_counts := AList.update cls (WordDict []) (word_counts s),
                word_total := 0\<rparr>"
  have c: "map_of (class_counts ?s) cls = Some 0"
    by (simp add: update_conv')
  have m: "map_of (word_counts ?s) cls = Some (WordDict [])"
    by (simp add: update_conv')
  show ?thesis
    by (simp add: class_step_def bind_res_def doc_loop [OF c m])
qed

lemma class_step_train_class: "class_step s item = Inr (train_class s item)"
  by (cases item) (simp add: class_step_ok train_class_def)

lemma class_loop: "for_each class_step corpus s = Inr (foldl train_class s corpus)"
  by (induction corpus arbitrary: s) (simp_all add: class_step_train_class)

lemma parse_training_data_eq:
  "parse_training_data corpus =
     Inr (int (length (vocab_set (foldl train_class init_state corpus))),
          word_counts (foldl train_class init_state corpus),
          AList.update ''total'' (class_total (foldl train_class init_state corpus))
            (class_counts (foldl train_class init_state corpus)))"
  by (simp add: parse_training_data_def class_loop bind_res_def)

lemma class_total_foldl:
  "class_total (foldl train_class s corpus) =
     class_total s + (\<Sum>item\<leftarrow>corpus. int (length (snd item)))"
  by (induction corpus arbitrary: s) (simp_all add: train_class_def)

lemma update_fresh: "k \<notin> fst ` set al \<Longrightarrow> AList.update k v al = al @ [(k, v)]"
  by (induction al) auto

lemma class_counts_foldl:
  assumes "distinct (map fst corpus)"
    and "fst ` set corpus \<inter> fst ` set (class_counts s) = {}"
  shows "class_counts (foldl train_class s corpus) =
     class_counts s @ map (\<lambda>item. (fst item, int (length (snd item)))) corpus"
  using assms
proof (induction corpus arbitrary: s)
  case Nil
  then show ?case by simp
next
  case (Cons item corpus)
  have fresh: "fst item \<notin> fst ` set (class_counts s)"
    using Cons.prems(2) by auto
  have cc: "class_counts (train_class s item) =
      class_counts s @ [(fst item, int (length (snd item)))]"
    by (simp add: train_class_def update_fresh [OF fresh])
  have d: "distinct (map fst corpus)"
    using Cons.prems(1) by simp
  have disj: "fst ` set corpus \<inter> fst ` set (class_counts (train_class s item)) = {}"
    using Cons.prems by (auto simp: cc)
  show ?case
    using Cons.IH [OF d disj] by (simp add: cc)
qed

lemma word_total_last:
  "word_counts (foldl train_class s (corpus @ [item])) =
     AList.update ''total'' (WordTotal (int (length (class_tokens (snd item)))))
       (AList.update (fst item) (WordDict (count_tokens (class_tokens (snd item)) []))
          (word_counts (foldl train_class s corpus)))"
  by (simp add: train_class_def)

lemma word_total_of_last_class:
  assumes "corpus \<noteq> []"
  shows "map_of (word_counts (foldl train_class s corpus)) ''total'' =
     Some (WordTotal (int (length (class_tokens (snd (last corpus))))))"
proof -
  obtain pre item where c: "corpus = pre @ [item]"
    using assms by (metis append_butlast_last_id)
  show ?thesis
    unfolding c by (simp add: train_class_def update_conv')
qed

lemma set_update_subset: "set (AList.update k v al) \<subseteq> insert (k, v) (set al)"
  by (induction al) auto

lemma bump_pos:
  assumes "\<forall>e \<in> set d. 1 \<le> snd e"
  shows "\<forall>e \<in> set (bump d w). 1 \<le> snd e"
proof
  fix e assume "e \<in> set (bump d w)"
  then have "e = (w, (case map_of d w of None \<Rightarrow> 1 | Some n \<Rightarrow> if n \<noteq> 0 then n + 1 else 1)) \<or> e \<in> set d"
    using set_update_subset unfolding bump_def by fastforce
  then show "1 \<le> snd e"
  proof
    assume e: "e = (w, (case map_of d w of None \<Rightarrow> 1 | Some n \<Rightarrow> if n \<noteq> 0 then n + 1 else 1))"
    show ?thesis
    proof (cases "map_of d w")
      case None
      then show ?thesis by (simp add: e)
    next
      case (Some n)
      then have "(w, n) \<in> set d" by (rule map_of_SomeD)
      then have "1 \<le> n" using assms by fastforce
      then show ?thesis by (simp add: e Some)
    qed
  next
    assume "e \<in> set d"
    then show ?thesis using assms by blast
  qed
qed

lemma count_tokens_pos:
  "\<forall>e \<in> set d. 1 \<le> snd e \<Longrightarrow> \<forall>e \<in> set (count_tokens ws d). 1 \<le> snd e"
proof (induction ws arbitrary: d)
  case Nil
  then show ?case by (simp add: count_tokens_def)
next
  case (Cons w ws)
  have "\<forall>e \<in> set (count_tokens ws (bump d w)). 1 \<le> snd e"
    by (rule Cons.IH [OF bump_pos [OF Cons.prems]])
  then show ?case by (simp add: count_tokens_def)
qed

lemma train_class_counts_pos:
  assumes "counts_pos (word_counts s)"
  shows "counts_pos (word_counts (train_class s item))"
proof -
  let ?d = "count_tokens (class_tokens (snd item)) []"
  let ?t = "int (length (class_tokens (snd item)))"
  have d: "\<forall>e \<in> set ?d. 1 \<le> snd e"
    by (rule count_tokens_pos) simp
  have sub: "set (word_counts (train_class s item)) \<subseteq>
      insert (''total'', WordTotal ?t) (insert (fst item, WordDict ?d) (set (word_counts s)))"
    using set_update_subset [of "''total''" "WordTotal ?t"
        "AList.update (fst item) (WordDict ?d) (word_counts s)"]
      set_update_subset [of "fst item" "WordDict ?d" "word_counts s"]
    by (auto simp: train_class_def)
  show ?thesis
    unfolding counts_pos_def
  proof
    fix e assume "e \<in> set (word_counts (train_class s item))"
    then consider "e = (''total'', WordTotal ?t)" | "e = (fst item, WordDict ?d)"
      | "e \<in> set (word_counts s)"
      using sub by blast
    then show "case snd e of WordDict d \<Rightarrow> \<forall>e \<in> set d. 1 \<le> snd e | WordTotal t \<Rightarrow> 0 \<le> t"
    proof cases
      case 1
      then show ?thesis by simp
    next
      case 2
      then show ?thesis using d by simp
    next
      case 3
      then show ?thesis using assms unfolding counts_pos_def by blast
    qed
  qed
qed

lemma foldl_train_class_counts_pos:
  "counts_pos (word_counts s) \<Longrightarrow> counts_pos (word_counts (foldl train_class s corpus))"
  by (induction corpus arbitrary: s) (simp_all add: train_class_counts_pos)

lemma trained_counts_pos:
  assumes "parse_training_data corpus = Inr (vocab, wcs, ccs)"
  shows "counts_pos wcs"
proof -
  have "wcs = word_counts (foldl train_class init_state corpus)"
    using assms by (simp add: parse_training_data_eq)
  moreover have "counts_pos (word_counts init_state)"
    by (simp add: counts_pos_def init_state_def)
  ultimately show ?thesis
    by (simp add: foldl_train_class_counts_pos)
qed

lemma word_instance_nonneg:
  assumes "\<forall>e \<in> set d. 1 \<le> snd e"
  shows "0 \<le> word_instance_of d w"
proof (cases "map_of d w")
  case None
  then show ?thesis by (simp add: word_instance_of_def)
next
  case (Some n)
  then have "(w, n) \<in> set d" by (rule map_of_SomeD)
  then have "1 \<le> n" using assms by fastforce
  then show ?thesis by (simp add: word_instance_of_def Some)
qed

lemma length_class_tokens: "int (length (class_tokens docs)) = token_occurrences docs"
  by (simp add: class_tokens_def token_occurrences_def)

lemma likelihood_total:
  assumes "map_of wcs ''total'' = Some (WordTotal t)"
  shows "likelihood wcs vocab n = py_div (real_of_int (n + 1)) (real_of_int (t + vocab))"
  using assms by (simp add: likelihood_def dict_get_def bind_res_def)

lemma score_word_step_total:
  assumes "map_of wcs ''total'' = Some (WordTotal t)"
    and "map_of probabilities doc_cls = Some p"
  shows "score_word_step wcs vocab doc_cls (WordDict d) probabilities word_orig =
     bind_res (py_div (real_of_int (word_instance_of d (lower word_orig) + 1))
                 (real_of_int (t + vocab))) (\<lambda>q.
     bind_res (py_log q) (\<lambda>l. Inr (AList.update doc_cls (p + l) probabilities)))"
  using assms(2)
  by (simp add: score_word_step_def likelihood_total [OF assms(1)] dict_get_def bind_res_def)

lemma score_word_step_log:
  assumes "map_of wcs ''total'' = Some (WordTotal t)"
    and "map_of probabilities doc_cls = Some p"
    and "0 \<le> word_instance_of d (lower word_orig)"
    and "0 < t + vocab"
  shows "score_word_step wcs vocab doc_cls (WordDict d) probabilities word_orig =
     Inr (AList.update doc_cls
            (p + ln (real_of_int (word_instance_of d (lower word_orig) + 1) /
                     real_of_int (t + vocab))) probabilities)"
proof -
  let ?q = "real_of_int (word_instance_of d (lower word_orig) + 1) / real_of_int (t + vocab)"
  have dv: "py_div (real_of_int (word_instance_of d (lower word_orig) + 1))
      (real_of_int (t + vocab)) = Inr ?q"
    using assms(4) by (simp add: py_div_def)
  have "0 < ?q"
    using assms(3,4) by (simp add: divide_pos_pos)
  then have lg: "py_log ?q = Inr (ln ?q)"
    by (simp add: py_log_def)
  show ?thesis
    unfolding score_word_step_total [OF assms(1,2)] dv
    by (simp only: bind_res_def sum.case lg)
qed

lemma no_docs_no_tokens:
  "\<forall>item \<in> set xs. snd item = [] \<Longrightarrow> (\<Sum>item\<leftarrow>xs. token_occurrences (snd item)) = 0"
  by (induction xs) (simp_all add: token_occurrences_def)

lemma corpus_token_occurrences_last:
  assumes "data_obj \<noteq> []" and "\<forall>item \<in> set (butlast data_obj). snd item = []"
  shows "corpus_token_occurrences data_obj = token_occurrences (snd (last data_obj))"
proof -
  have "corpus_token_occurrences (butlast data_obj @ [last data_obj]) =
      (\<Sum>item\<leftarrow>butlast data_obj. token_occurrences (snd item)) + token_occurrences (snd (last data_obj))"
    by (simp add: corpus_token_occurrences_def)
  then show ?thesis
    using assms(1) no_docs_no_tokens [OF assms(2)] by simp
qed

lemma real_class_sum_map:
  assumes "''total'' \<notin> fst ` set data_obj"
  shows "real_class_sum (map (\<lambda>item. (fst item, int (length (snd item)))) data_obj @ [(''total'', T)])
     = (\<Sum>item\<leftarrow>data_obj. int (length (snd item)))"
  using assms by (induction data_obj) (auto simp: real_class_sum_def)

section \<open>Selection and scoring lemmas\<close>

lemma select_step_snoc:
  "foldl select_step acc (xs @ [x]) = select_step (foldl select_step acc xs) x"
  by simp

lemma select_invariant:
  fixes xs :: "(string, 's::linorder) dict"
  assumes "xs \<noteq> []"
  shows "\<exists>i < length xs.
           foldl select_step (None, None) xs = (Some (snd (xs ! i)), Some (fst (xs ! i)))
         \<and> (\<forall>j < length xs. snd (xs ! j) \<le> snd (xs ! i))
         \<and> (\<forall>j < i. snd (xs ! j) < snd (xs ! i))"
  using assms
proof (induction xs rule: rev_induct)
  case Nil
  then show ?case by simp
next
  case (snoc x xs)
  obtain c p where x: "x = (c, p)" by (cases x)
  show ?case
  proof (cases "xs = []")
    case True
    then show ?thesis by (simp add: select_step_def x)
  next
    case False
    from snoc.IH [OF False] obtain i where i: "i < length xs"
      and acc: "foldl select_step (None, None) xs = (Some (snd (xs ! i)), Some (fst (xs ! i)))"
      and mx: "\<forall>j < length xs. snd (xs ! j) \<le> snd (xs ! i)"
      and first: "\<forall>j < i. snd (xs ! j) < snd (xs ! i)"
      by blast
    show ?thesis
    proof (cases "p > snd (xs ! i)")
      case True
      have a: "foldl select_step (None, None) (xs @ [x]) = (Some p, Some c)"
        using True by (simp add: acc select_step_def x)
      have b: "\<forall>j < length (xs @ [x]). snd ((xs @ [x]) ! j) \<le> p"
      proof (intro allI impI)
        fix j assume "j < length (xs @ [x])"
        then consider "j < length xs" | "j = length xs" by fastforce
        then show "snd ((xs @ [x]) ! j) \<le> p"
        proof cases
          case 1
          then show ?thesis using mx True by (fastforce simp: nth_append)
        next
          case 2
          then show ?thesis by (simp add: x)
        qed
      qed
      have c: "\<forall>j < length xs. snd ((xs @ [x]) ! j) < p"
        using mx True by (fastforce simp: nth_append)
      show ?thesis
        by (rule exI [of _ "length xs"]) (use a b c in \<open>simp add: x\<close>)
    next
      case False
      have a: "foldl select_step (None, None) (xs @ [x]) =
          (Some (snd (xs ! i)), Some (fst (xs ! i)))"
        using False by (simp add: acc select_step_def x)
      have b: "\<forall>j < length (xs @ [x]). snd ((xs @ [x]) ! j) \<le> snd (xs ! i)"
      proof (intro allI impI)
        fix j assume "j < length (xs @ [x])"
        then consider "j < length xs" | "j = length xs" by fastforce
        then show "snd ((xs @ [x]) ! j) \<le> snd (xs ! i)"
        proof cases
          case 1
          then show ?thesis using mx by (simp add: nth_append)
        next
          case 2
          then show ?thesis using False by (simp add: x)
        qed
      qed
      show ?thesis
        by (rule exI [of _ i]) (use i a b first in \<open>simp add: nth_append\<close>)
    qed
  qed
qed

lemma select_class_Nil: "select_class [] = None"
  by (simp add: select_class_def)

lemma select_class_nonempty:
  fixes xs :: "(string, 's::linorder) dict"
  assumes "xs \<noteq> []"
  shows "select_class xs \<noteq> None"
  using select_invariant [OF assms] by (auto simp: select_class_def)

lemma foldl_append_map: "foldl (\<lambda>acc x. acc @ [f x]) acc xs = acc @ map f xs"
  by (induction xs arbitrary: acc) simp_all

lemma predict_eq:
  "predict (vocab, wcs, ccs) test_data =
     bind_res (calculate_probability wcs vocab ccs test_data)
       (\<lambda>probabilities. Inr (map select_class probabilities))"
  by (simp add: predict_def foldl_append_map)

lemma score_word_step_nonempty:
  "score_word_step wcs vocab doc_cls entry probabilities w = Inr p' \<Longrightarrow> p' \<noteq> []"
  by (auto simp: score_word_step_def bind_res_def Let_def split: wc_value.splits sum.splits)

lemma score_word_loop_nonempty:
  "for_each (score_word_step wcs vocab doc_cls entry) ws p = Inr p' \<Longrightarrow> p \<noteq> [] \<Longrightarrow> p' \<noteq> []"
proof (induction ws arbitrary: p)
  case Nil
  then show ?case by simp
next
  case (Cons w ws)
  then show ?case
    by (auto split: sum.splits dest: score_word_step_nonempty)
qed

lemma score_class_step_nonempty:
  assumes "score_class_step wcs vocab ccs doc p item = Inr p'"
    and "p \<noteq> [] \<or> fst item \<noteq> ''total''"
  shows "p' \<noteq> []"
proof (cases "fst item = ''total''")
  case True
  then show ?thesis
    using assms by (auto simp: score_class_step_def split: prod.splits)
next
  case False
  obtain doc_cls entry where item: "item = (doc_cls, entry)" by (cases item)
  from assms(1) False obtain l where
    "for_each (score_word_step wcs vocab doc_cls entry) (split_sp doc)
       (AList.update doc_cls l p) = Inr p'"
    by (auto simp: score_class_step_def item bind_res_def split: sum.splits)
  then show ?thesis
    by (rule score_word_loop_nonempty) simp
qed

lemma score_class_loop_nonempty:
  "for_each (score_class_step wcs vocab ccs doc) items p = Inr p' \<Longrightarrow>
   p \<noteq> [] \<or> (\<exists>item \<in> set items. fst item \<noteq> ''total'') \<Longrightarrow> p' \<noteq> []"
proof (induction items arbitrary: p)
  case Nil
  then show ?case by simp
next
  case (Cons item items)
  from Cons.prems(1) obtain p1 where
    s: "score_class_step wcs vocab ccs doc p item = Inr p1"
    and r: "for_each (score_class_step wcs vocab ccs doc) items p1 = Inr p'"
    by (auto split: sum.splits)
  show ?case
  proof (cases "p \<noteq> [] \<or> fst item \<noteq> ''total''")
    case True
    then have "p1 \<noteq> []"
      by (rule score_class_step_nonempty [OF s])
    then show ?thesis
      using Cons.IH [OF r] by simp
  next
    case False
    then have "\<exists>item \<in> set items. fst item \<noteq> ''total''"
      using Cons.prems(2) by auto
    then show ?thesis
      using Cons.IH [OF r] by simp
  qed
qed

lemma score_doc_loop_nonempty:
  assumes "\<exists>item \<in> set wcs. fst item \<noteq> ''total''"
  shows "for_each (score_doc_step wcs vocab ccs) docs rslt = Inr rslt' \<Longrightarrow>
     \<forall>p \<in> set rslt. p \<noteq> [] \<Longrightarrow> \<forall>p \<in> set rslt'. p \<noteq> []"
proof (induction docs arbitrary: rslt)
  case Nil
  then show ?case by simp
next
  case (Cons doc docs)
  from Cons.prems(1) obtain r1 where
    s: "score_doc_step wcs vocab ccs rslt doc = Inr r1"
    and r: "for_each (score_doc_step wcs vocab ccs) docs r1 = Inr rslt'"
    by (auto split: sum.splits)
  from s obtain p where
    p: "for_each (score_class_step wcs vocab ccs doc) wcs [] = Inr p" and r1: "r1 = rslt @ [p]"
    by (auto simp: score_doc_step_def bind_res_def split: sum.splits)
  have "p \<noteq> []"
    using score_class_loop_nonempty [OF p] assms by simp
  then have "\<forall>q \<in> set r1. q \<noteq> []"
    using Cons.prems(2) by (simp add: r1)
  then show ?case
    by (rule Cons.IH [OF r])
qed

lemma scored_nonempty:
  assumes "\<exists>item \<in> set wcs. fst item \<noteq> ''total''"
    and "calculate_probability wcs vocab ccs docs = Inr probs"
  shows "\<forall>p \<in> set probs. p \<noteq> []"
  using score_doc_loop_nonempty [OF assms(1), of vocab ccs docs "[]" probs] assms(2)
  by (simp add: calculate_probability_def)

lemma score_class_loop_no_class:
  "\<forall>item \<in> set items. fst item = ''total'' \<Longrightarrow>
   for_each (score_class_step wcs vocab ccs doc) items p = Inr p"
  by (induction items) (auto simp: score_class_step_def)

lemma score_doc_loop_no_class:
  assumes "\<forall>item \<in> set wcs. fst item = ''total''"
  shows "for_each (score_doc_step wcs vocab ccs) docs rslt = Inr (rslt @ map (\<lambda>doc. []) docs)"
  by (induction docs arbitrary: rslt)
    (simp_all add: score_doc_step_def score_class_loop_no_class [OF assms] bind_res_def)

lemma split_sp_nonempty: "split_sp s \<noteq> []"
  by (induction s) (auto split: list.splits)

lemma first_class_zero_denominator:
  assumes "c \<noteq> ''total''"
    and "map_of ccs c = Some n" and "map_of ccs ''total'' = Some m" and "0 < n" and "0 < m"
    and "map_of ((c, WordDict d) # rest) ''total'' = Some (WordTotal t)" and "t + vocab = 0"
  shows "calculate_probability ((c, WordDict d) # rest) vocab ccs (doc # docs) = Inl ZeroDivisionError"
proof -
  let ?wcs = "(c, WordDict d) # rest"
  obtain w ws where sp: "split_sp doc = w # ws"
    using split_sp_nonempty [of doc] by (cases "split_sp doc") auto
  have lk: "likelihood ?wcs vocab k = Inl ZeroDivisionError" for k
    using assms(6,7) by (simp add: likelihood_def dict_get_def bind_res_def py_div_def)
  have ws: "score_word_step ?wcs vocab c (WordDict d) (AList.update c l []) w = Inl ZeroDivisionError" for l
    by (simp add: score_word_step_def dict_get_def bind_res_def lk)
  have pr: "py_div (real_of_int n) (real_of_int m) = Inr (real_of_int n / real_of_int m)"
    using assms(5) by (simp add: py_div_def)
  have lg: "py_log (real_of_int n / real_of_int m) = Inr (ln (real_of_int n / real_of_int m))"
    using assms(4,5) by (simp add: py_log_def not_le)
  have cs: "score_class_step ?wcs vocab ccs doc [] (c, WordDict d) = Inl ZeroDivisionError"
    using assms(1,2,3)
    by (simp add: score_class_step_def dict_get_def bind_res_def pr lg sp ws del: AList.update.simps)
  have "score_doc_step ?wcs vocab ccs [] doc = Inl ZeroDivisionError"
    by (simp add: score_doc_step_def bind_res_def cs)
  then show ?thesis
    by (simp add: calculate_probability_def)
qed

lemma first_class_zero_prior:
  assumes "c \<noteq> ''total''"
    and "map_of ccs c = Some n" and "map_of ccs ''total'' = Some 0"
  shows "calculate_probability ((c, e) # rest) vocab ccs (doc # docs) = Inl ZeroDivisionError"
proof -
  have "score_class_step ((c, e) # rest) vocab ccs doc [] (c, e) = Inl ZeroDivisionError"
    using assms by (simp add: score_class_step_def dict_get_def bind_res_def py_div_def)
  then have "score_doc_step ((c, e) # rest) vocab ccs [] doc = Inl ZeroDivisionError"
    by (simp add: score_doc_step_def bind_res_def)
  then show ?thesis
    by (simp add: calculate_probability_def)
qed

section \<open>Concrete runs\<close>

lemmas score_defs = predict_def calculate_probability_def score_doc_step_def
  score_class_step_def score_word_step_def likelihood_def word_instance_of_def py_div_def
  py_log_def select_class_def select_step_def bind_res_def dict_get_def lower_def lower_char_def

lemma parse_a: "parse_training_data [(''a'', [''x''])] =
    Inr (1, [(''a'', WordDict [(''x'', 1)]), (''total'', WordTotal 1)], [(''a'', 1), (''total'', 1)])"
  by code_simp

lemma parse_b: "parse_training_data [(''b'', [''y''])] =
    Inr (1, [(''b'', WordDict [(''y'', 1)]), (''total'', WordTotal 1)], [(''b'', 1), (''total'', 1)])"
  by code_simp

lemma parse_ab: "parse_training_data [(''a'', [''x y'']), (''b'', [''z''])] =
    Inr (3, [(''a'', WordDict [(''x'', 1), (''y'', 1)]), (''total'', WordTotal 1),
             (''b'', WordDict [(''z'', 1)])],
         [(''a'', 1), (''b'', 1), (''total'', 2)])"
  by code_simp

lemma parse_spam: "parse_training_data [(''spam'', [''win money now'']), (''not spam'', [''call me back''])] =
     Inr (6, [(''spam'', WordDict [(''win'', 1), (''money'', 1), (''now'', 1)]),
              (''total'', WordTotal 3),
              (''not spam'', WordDict [(''call'', 1), (''me'', 1), (''back'', 1)])],
          [(''spam'', 1), (''not spam'', 1), (''total'', 2)])"
  by code_simp

lemma parse_spam_rev: "parse_training_data [(''not spam'', [''call me back'']), (''spam'', [''win money now''])] =
     Inr (6, [(''not spam'', WordDict [(''call'', 1), (''me'', 1), (''back'', 1)]),
              (''total'', WordTotal 3),
              (''spam'', WordDict [(''win'', 1), (''money'', 1), (''now'', 1)])],
          [(''not spam'', 1), (''spam'', 1), (''total'', 2)])"
  by code_simp

section \<open>Properties of the classifier\<close>

subsection \<open>The entry point\<close>

text \<open>
  Claim C1.  \<^verbatim>\<open>naive_bayes_text(train_data, test_data)\<close> is meant to return what
  \<^verbatim>\<open>predict(parse_training_data(train_data), test_data)\<close> returns.  The code parses the
  global name \<^verbatim>\<open>training_data\<close> instead of its parameter.  For the corpus
  \<open>{a: [x]}\<close> and the test document \<open>x\<close>, training on the argument and predicting gives
  the label \<open>a\<close>; the function raises NameError where the module has no global
  \<^verbatim>\<open>training_data\<close>, and answers from the global corpus (here \<open>{b: [y]}\<close>, label
  \<open>b\<close>) where it has one.
\<close>

theorem naive_bayes_text_ignores_train_data:
  "naive_bayes_text None [(''a'', [''x''])] [''x''] = Inl NameError
   \<and> naive_bayes_text (Some [(''b'', [''y''])]) [(''a'', [''x''])] [''x''] = Inr [Some ''b'']
   \<and> bind_res (parse_training_data [(''a'', [''x''])]) (\<lambda>parsed_obj. predict parsed_obj [''x''])
       = Inr [Some ''a'']"
proof (intro conjI)
  show "naive_bayes_text None [(''a'', [''x''])] [''x''] = Inl NameError"
    by (simp add: naive_bayes_text_def)
  show "naive_bayes_text (Some [(''b'', [''y''])]) [(''a'', [''x''])] [''x''] = Inr [Some ''b'']"
    by (simp add: naive_bayes_text_def parse_b) (simp add: score_defs)
  show "bind_res (parse_training_data [(''a'', [''x''])]) (\<lambda>parsed_obj. predict parsed_obj [''x''])
       = Inr [Some ''a'']"
    by (simp add: parse_a) (simp add: score_defs)
qed

subsection \<open>The recorded word total\<close>

text \<open>
  Claim C10.  The likelihood denominator \<^verbatim>\<open>word_counter['total'] + vocab\<close> is one value
  shared by all classes.  For every corpus with at least one class, training succeeds, the
  value recorded under \<^verbatim>\<open>'total'\<close> is the number of token occurrences of the last class
  iterated, and the step that scores one token for any class table \<open>d\<close> divides
  \<open>count + 1\<close> by that last-class total plus the vocabulary size.
\<close>

theorem recorded_total_is_last_class:
  assumes "data_obj \<noteq> []"
  shows "\<exists>vocab wcs ccs. parse_training_data data_obj = Inr (vocab, wcs, ccs)
     \<and> map_of wcs ''total'' = Some (WordTotal (token_occurrences (snd (last data_obj))))
     \<and> (\<forall>doc_cls d probabilities p word_orig.
          map_of probabilities doc_cls = Some p \<longrightarrow>
          score_word_step wcs vocab doc_cls (WordDict d) probabilities word_orig =
            bind_res (py_div (real_of_int (word_instance_of d (lower word_orig) + 1))
                        (real_of_int (token_occurrences (snd (last data_obj)) + vocab))) (\<lambda>q.
            bind_res (py_log q) (\<lambda>l. Inr (AList.update doc_cls (p + l) probabilities))))"
proof -
  let ?t = "foldl train_class init_state data_obj"
  have m: "map_of (word_counts ?t) ''total'' =
      Some (WordTotal (token_occurrences (snd (last data_obj))))"
    using word_total_of_last_class [OF assms, of init_state] by (simp add: length_class_tokens)
  show ?thesis
    using parse_training_data_eq [of data_obj] score_word_step_total [OF m] m by blast
qed

theorem recorded_total_is_last_class_witness:
  "\<exists>vocab wcs ccs.
     parse_training_data [(''a'', [''x y'']), (''b'', [''z''])] = Inr (vocab, wcs, ccs)
     \<and> map_of wcs ''total'' = Some (WordTotal 1)
     \<and> score_word_step wcs vocab ''a'' (WordDict [(''x'', 1), (''y'', 1)]) [(''a'', 0)] ''x'' =
         bind_res (py_div (real_of_int (1 + 1)) (real_of_int (1 + vocab))) (\<lambda>q.
         bind_res (py_log q) (\<lambda>l. Inr (AList.update ''a'' (0 + l) [(''a'', 0)])))"
proof -
  let ?C = "[(''a'', [''x y'']), (''b'', [''z''])] :: corpus"
  have ne: "?C \<noteq> []"
    by simp
  have t: "token_occurrences (snd (last ?C)) = 1"
    by (simp add: token_occurrences_def)
  have w: "word_instance_of [(''x'', 1), (''y'', 1)] (lower ''x'') = 1"
    by (simp add: word_instance_of_def lower_def lower_char_def)
  have p: "map_of [(''a'', 0::real)] ''a'' = Some 0"
    by simp
  from recorded_total_is_last_class [OF ne] obtain vocab wcs ccs where
    a: "parse_training_data ?C = Inr (vocab, wcs, ccs)"
    and b: "map_of wcs ''total'' = Some (WordTotal (token_occurrences (snd (last ?C))))"
    and c: "\<forall>doc_cls d probabilities p word_orig.
          map_of probabilities doc_cls = Some p \<longrightarrow>
          score_word_step wcs vocab doc_cls (WordDict d) probabilities word_orig =
            bind_res (py_div (real_of_int (word_instance_of d (lower word_orig) + 1))
                        (real_of_int (token_occurrences (snd (last ?C)) + vocab))) (\<lambda>q.
            bind_res (py_log q) (\<lambda>l. Inr (AList.update doc_cls (p + l) probabilities)))"
    by blast
  from c p have "score_word_step wcs vocab ''a'' (WordDict [(''x'', 1), (''y'', 1)]) [(''a'', 0)] ''x'' =
         bind_res (py_div (real_of_int (word_instance_of [(''x'', 1), (''y'', 1)] (lower ''x'') + 1))
           (real_of_int (token_occurrences (snd (last ?C)) + vocab))) (\<lambda>q.
         bind_res (py_log q) (\<lambda>l. Inr (AList.update ''a'' (0 + l) [(''a'', 0)])))"
    by blast
  with a b show ?thesis
    unfolding t w by blast
qed

text \<open>
  Claim C2 says that the recorded total is the number of token occurrences of the whole
  corpus.  On the corpus \<open>{a: [x y], b: [z]}\<close> the corpus has 3 token occurrences and the
  recorded total is 1, so a token unseen in a class gets \<open>1 / (1 + 3)\<close>, not
  \<open>1 / (3 + 3)\<close>.
\<close>

theorem recorded_total_not_global:
  "parse_training_data [(''a'', [''x y'']), (''b'', [''z''])] =
     Inr (3, [(''a'', WordDict [(''x'', 1), (''y'', 1)]), (''total'', WordTotal 1),
              (''b'', WordDict [(''z'', 1)])],
          [(''a'', 1), (''b'', 1), (''total'', 2)])
   \<and> corpus_token_occurrences [(''a'', [''x y'']), (''b'', [''z''])] = 3
   \<and> likelihood [(''a'', WordDict [(''x'', 1), (''y'', 1)]), (''total'', WordTotal 1),
                 (''b'', WordDict [(''z'', 1)])] 3 0 = Inr (1 / 4)"
  by (simp add: parse_ab corpus_token_occurrences_def token_occurrences_def likelihood_def
      dict_get_def bind_res_def py_div_def)

text \<open>
  Claim C2, amended.  When no class before the last one has a document (in particular when
  the corpus has a single class), training succeeds and the value recorded under
  \<^verbatim>\<open>'total'\<close> is the number of token occurrences of the whole corpus.  The step that
  scores one token for a class table \<open>d\<close> then divides \<open>count + 1\<close> by that total plus the
  vocabulary size, takes the logarithm of the quotient and adds it to the score of the class;
  for a class table of the trained model and a positive denominator the step succeeds, and the
  term it adds is \<open>ln ((count + 1) / (total + vocab))\<close>.
\<close>

theorem recorded_total_single_class:
  assumes "data_obj \<noteq> []" and "\<forall>item \<in> set (butlast data_obj). snd item = []"
  shows "\<exists>vocab wcs ccs. parse_training_data data_obj = Inr (vocab, wcs, ccs)
     \<and> map_of wcs ''total'' = Some (WordTotal (corpus_token_occurrences data_obj))
     \<and> (\<forall>n. likelihood wcs vocab n =
           py_div (real_of_int (n + 1)) (real_of_int (corpus_token_occurrences data_obj + vocab)))
     \<and> (\<forall>doc_cls d probabilities p word_orig.
          map_of probabilities doc_cls = Some p \<longrightarrow>
          score_word_step wcs vocab doc_cls (WordDict d) probabilities word_orig =
            bind_res (py_div (real_of_int (word_instance_of d (lower word_orig) + 1))
                        (real_of_int (corpus_token_occurrences data_obj + vocab))) (\<lambda>q.
            bind_res (py_log q) (\<lambda>l. Inr (AList.update doc_cls (p + l) probabilities))))
     \<and> (\<forall>cls doc_cls d probabilities p word_orig.
          (cls, WordDict d) \<in> set wcs \<and> map_of probabilities doc_cls = Some p \<and>
          0 < corpus_token_occurrences data_obj + vocab \<longrightarrow>
          score_word_step wcs vocab doc_cls (WordDict d) probabilities word_orig =
            Inr (AList.update doc_cls
                   (p + ln (real_of_int (word_instance_of d (lower word_orig) + 1) /
                            real_of_int (corpus_token_occurrences data_obj + vocab)))
                   probabilities))"
proof -
  let ?t = "foldl train_class init_state data_obj"
  let ?vocab = "int (length (vocab_set ?t))"
  let ?wcs = "word_counts ?t"
  let ?ccs = "AList.update ''total'' (class_total ?t) (class_counts ?t)"
  let ?T = "corpus_token_occurrences data_obj"
  have p: "parse_training_data data_obj = Inr (?vocab, ?wcs, ?ccs)"
    by (rule parse_training_data_eq)
  have m: "map_of ?wcs ''total'' = Some (WordTotal ?T)"
    using word_total_of_last_class [OF assms(1), of init_state]
    by (simp add: length_class_tokens corpus_token_occurrences_last [OF assms])
  have lk: "\<forall>n. likelihood ?wcs ?vocab n = py_div (real_of_int (n + 1)) (real_of_int (?T + ?vocab))"
    using likelihood_total [OF m] by blast
  have step: "\<forall>doc_cls d probabilities p word_orig.
          map_of probabilities doc_cls = Some p \<longrightarrow>
          score_word_step ?wcs ?vocab doc_cls (WordDict d) probabilities word_orig =
            bind_res (py_div (real_of_int (word_instance_of d (lower word_orig) + 1))
                        (real_of_int (?T + ?vocab))) (\<lambda>q.
            bind_res (py_log q) (\<lambda>l. Inr (AList.update doc_cls (p + l) probabilities)))"
    using score_word_step_total [OF m] by blast
  have pos: "counts_pos ?wcs"
    by (rule trained_counts_pos [OF p])
  have logstep: "\<forall>cls doc_cls d probabilities p word_orig.
          (cls, WordDict d) \<in> set ?wcs \<and> map_of probabilities doc_cls = Some p \<and>
          0 < ?T + ?vocab \<longrightarrow>
          score_word_step ?wcs ?vocab doc_cls (WordDict d) probabilities word_orig =
            Inr (AList.update doc_cls
                   (p + ln (real_of_int (word_instance_of d (lower word_orig) + 1) /
                            real_of_int (?T + ?vocab)))
                   probabilities)"
  proof (intro allI impI)
    fix cls doc_cls word_orig :: string and d :: "(string, int) dict"
      and probabilities :: "(string, real) dict" and p :: real
    assume a: "(cls, WordDict d) \<in> set ?wcs \<and> map_of probabilities doc_cls = Some p \<and>
          0 < ?T + ?vocab"
    then have "\<forall>e \<in> set d. 1 \<le> snd e"
      using pos unfolding counts_pos_def by fastforce
    then have n: "0 \<le> word_instance_of d (lower word_orig)"
      by (rule word_instance_nonneg)
    from a have pr: "map_of probabilities doc_cls = Some p" and dn: "0 < ?T + ?vocab"
      by blast+
    show "score_word_step ?wcs ?vocab doc_cls (WordDict d) probabilities word_orig =
            Inr (AList.update doc_cls
                   (p + ln (real_of_int (word_instance_of d (lower word_orig) + 1) /
                            real_of_int (?T + ?vocab)))
                   probabilities)"
      by (rule score_word_step_log [OF m pr n dn])
  qed
  show ?thesis
    by (rule exI [of _ ?vocab], rule exI [of _ ?wcs], rule exI [of _ ?ccs])
      (intro conjI p m lk step logstep)
qed

theorem recorded_total_single_class_witness:
  "parse_training_data [(''a'', []), (''b'', [''x y'', ''z''])] =
     Inr (3, [(''a'', WordDict []), (''total'', WordTotal 3),
              (''b'', WordDict [(''x'', 1), (''y'', 1), (''z'', 1)])],
          [(''a'', 0), (''b'', 2), (''total'', 2)])
   \<and> corpus_token_occurrences [(''a'', []), (''b'', [''x y'', ''z''])] = 3
   \<and> likelihood [(''a'', WordDict []), (''total'', WordTotal 3),
                 (''b'', WordDict [(''x'', 1), (''y'', 1), (''z'', 1)])] 3 0 = py_div 1 6
   \<and> score_word_step [(''a'', WordDict []), (''total'', WordTotal 3),
                      (''b'', WordDict [(''x'', 1), (''y'', 1), (''z'', 1)])] 3 ''b''
        (WordDict [(''x'', 1), (''y'', 1), (''z'', 1)]) [(''a'', 5), (''b'', 7)] ''X''
      = Inr [(''a'', 5), (''b'', 7 + ln (2 / 6))]"
proof -
  let ?C = "[(''a'', []), (''b'', [''x y'', ''z''])] :: corpus"
  let ?d = "[(''x'', 1), (''y'', 1), (''z'', 1)] :: (string, int) dict"
  let ?W = "[(''a'', WordDict []), (''total'', WordTotal 3), (''b'', WordDict ?d)]"
  let ?P = "[(''a'', 5), (''b'', 7)] :: (string, real) dict"
  have ne: "?C \<noteq> []"
    by simp
  have e: "\<forall>item \<in> set (butlast ?C). snd item = []"
    by simp
  have t: "corpus_token_occurrences ?C = 3"
    by (simp add: corpus_token_occurrences_def token_occurrences_def)
  have run: "parse_training_data ?C = Inr (3, ?W, [(''a'', 0), (''b'', 2), (''total'', 2)])"
    by code_simp
  have w: "word_instance_of ?d (lower ''X'') = 1"
    by code_simp
  from recorded_total_single_class [OF ne e] obtain vocab wcs ccs where
    a: "parse_training_data ?C = Inr (vocab, wcs, ccs)"
    and c: "\<forall>n. likelihood wcs vocab n =
           py_div (real_of_int (n + 1)) (real_of_int (corpus_token_occurrences ?C + vocab))"
    and s: "\<forall>cls doc_cls d probabilities p word_orig.
          (cls, WordDict d) \<in> set wcs \<and> map_of probabilities doc_cls = Some p \<and>
          0 < corpus_token_occurrences ?C + vocab \<longrightarrow>
          score_word_step wcs vocab doc_cls (WordDict d) probabilities word_orig =
            Inr (AList.update doc_cls
                   (p + ln (real_of_int (word_instance_of d (lower word_orig) + 1) /
                            real_of_int (corpus_token_occurrences ?C + vocab)))
                   probabilities)"
    by blast
  from a run have v: "vocab = 3" and ws: "wcs = ?W"
    by simp_all
  have h: "(''b'', WordDict ?d) \<in> set ?W \<and> map_of ?P ''b'' = Some 7 \<and> (0 :: int) < 3 + 3"
    by simp
  from c have l: "likelihood ?W 3 0 = py_div 1 6"
    unfolding v ws t by simp
  from s [unfolded v ws t, rule_format, of "''b''" ?d ?P "''b''" 7 "''X''"] h
  have "score_word_step ?W 3 ''b'' (WordDict ?d) ?P ''X'' =
      Inr (AList.update ''b''
             (7 + ln (real_of_int (word_instance_of ?d (lower ''X'') + 1) / real_of_int (3 + 3))) ?P)"
    by blast
  then have st: "score_word_step ?W 3 ''b'' (WordDict ?d) ?P ''X'' =
      Inr [(''a'', 5), (''b'', 7 + ln (2 / 6))]"
    unfolding w by simp
  show ?thesis
    by (intro conjI run t l st)
qed

text \<open>
  Claim C4.  The docstring of \<^verbatim>\<open>parse_training_data\<close> promises a word total inside every
  class table.  The code stores one value under the key \<^verbatim>\<open>'total'\<close> of the outer
  dictionary and overwrites it after each class.  On the corpus \<open>{a: [x y], b: [z]}\<close> the
  table of class \<open>a\<close> holds no total, its counts sum to 2, and the only recorded total is 1.
\<close>

theorem no_total_per_class:
  "parse_training_data [(''a'', [''x y'']), (''b'', [''z''])] =
     Inr (3, [(''a'', WordDict [(''x'', 1), (''y'', 1)]), (''total'', WordTotal 1),
              (''b'', WordDict [(''z'', 1)])],
          [(''a'', 1), (''b'', 1), (''total'', 2)])
   \<and> map_of [(''x'', 1 :: int), (''y'', 1)] ''total'' = None
   \<and> sum_list (map snd [(''x'', 1 :: int), (''y'', 1)]) = 2"
  by (simp add: parse_ab)

subsection \<open>Document counts\<close>

text \<open>
  Claim C6.  For every corpus (a dictionary, so its class labels are distinct) that does not
  use the reserved label \<^verbatim>\<open>'total'\<close> as a class, training succeeds, every class is
  recorded with the number of its documents, and the counts of the classes other than
  \<^verbatim>\<open>'total'\<close> sum to \<^verbatim>\<open>class_counts['total']\<close>.
\<close>

theorem class_counts_sum_to_total:
  assumes "distinct (map fst data_obj)" and "''total'' \<notin> fst ` set data_obj"
  shows "\<exists>vocab wcs ccs. parse_training_data data_obj = Inr (vocab, wcs, ccs)
     \<and> map_of ccs ''total'' = Some (real_class_sum ccs)
     \<and> (\<forall>item \<in> set data_obj. map_of ccs (fst item) = Some (int (length (snd item))))"
proof -
  let ?t = "foldl train_class init_state data_obj"
  let ?m = "map (\<lambda>item. (fst item, int (length (snd item)))) data_obj"
  let ?T = "\<Sum>item\<leftarrow>data_obj. int (length (snd item))"
  have cc: "class_counts ?t = ?m"
    using class_counts_foldl [OF assms(1), of init_state] by (simp add: init_state_def)
  have T: "class_total ?t = ?T"
    by (simp add: class_total_foldl init_state_def)
  have fresh: "''total'' \<notin> fst ` set ?m"
    using assms(2) by (simp add: image_image)
  have ccs: "AList.update ''total'' (class_total ?t) (class_counts ?t) = ?m @ [(''total'', ?T)]"
    by (simp add: cc T update_fresh [OF fresh])
  have "map_of ?m ''total'' = None"
    using fresh by (simp only: map_of_eq_None_iff not_False_eq_True)
  then have tot: "map_of (?m @ [(''total'', ?T)]) ''total'' = Some ?T"
    by (simp add: map_add_def)
  have s: "real_class_sum (?m @ [(''total'', ?T)]) = ?T"
    by (rule real_class_sum_map [OF assms(2)])
  have dm: "distinct (map fst (?m @ [(''total'', ?T)]))"
    using assms by (simp add: comp_def image_image)
  have each: "\<forall>item \<in> set data_obj.
      map_of (?m @ [(''total'', ?T)]) (fst item) = Some (int (length (snd item)))"
  proof
    fix item assume "item \<in> set data_obj"
    then have "(fst item, int (length (snd item))) \<in> set (?m @ [(''total'', ?T)])"
      by auto
    then show "map_of (?m @ [(''total'', ?T)]) (fst item) = Some (int (length (snd item)))"
      using dm by (rule map_of_is_SomeI [OF _, rotated]) 
  qed
  show ?thesis
    using parse_training_data_eq [of data_obj] tot s each unfolding ccs by auto
qed

theorem class_counts_sum_to_total_witness:
  "\<exists>vocab wcs ccs.
     parse_training_data [(''a'', [''x y'', ''z'']), (''b'', [''w''])] = Inr (vocab, wcs, ccs)
     \<and> map_of ccs ''total'' = Some (real_class_sum ccs)
     \<and> map_of ccs ''a'' = Some 2"
proof -
  let ?C = "[(''a'', [''x y'', ''z'']), (''b'', [''w''])] :: corpus"
  have d: "distinct (map fst ?C)"
    by simp
  have nt: "''total'' \<notin> fst ` set ?C"
    by simp
  from class_counts_sum_to_total [OF d nt] obtain vocab wcs ccs where
    a: "parse_training_data ?C = Inr (vocab, wcs, ccs)"
    and b: "map_of ccs ''total'' = Some (real_class_sum ccs)"
    and c: "\<forall>item \<in> set ?C. map_of ccs (fst item) = Some (int (length (snd item)))"
    by blast
  from c have "map_of ccs ''a'' = Some 2"
    by simp
  with a b show ?thesis
    by blast
qed

subsection \<open>Selection\<close>

text \<open>
  Claim C7.  For every non-empty score mapping, \<^verbatim>\<open>predict\<close> selects a class whose score
  is greatest, and among the classes with that score the one that comes first in iteration
  order: every class before the selected one has a strictly smaller score.  A class replaces
  the current maximum only when its score is strictly greater.
\<close>

theorem select_first_greatest:
  fixes prob_obj :: "(string, 's::linorder) dict"
  assumes "prob_obj \<noteq> []"
  shows "(\<exists>i < length prob_obj.
            select_class prob_obj = Some (fst (prob_obj ! i))
          \<and> (\<forall>j < length prob_obj. snd (prob_obj ! j) \<le> snd (prob_obj ! i))
          \<and> (\<forall>j < i. snd (prob_obj ! j) < snd (prob_obj ! i)))
       \<and> (\<forall>m c0 c. \<forall>p :: 's. select_step (Some m, Some c0) (c, p) =
            (if m < p then (Some p, Some c) else (Some m, Some c0)))"
  using select_invariant [OF assms] by (auto simp: select_class_def select_step_def)

theorem select_first_greatest_witness:
  "select_class [(''a'', 1 :: int), (''b'', 2), (''c'', 2)] = Some ''b''"
proof -
  let ?xs = "[(''a'', 1 :: int), (''b'', 2), (''c'', 2)]"
  have ne: "?xs \<noteq> []"
    by simp
  from select_first_greatest [OF ne] obtain i where i: "i < length ?xs"
    and s: "select_class ?xs = Some (fst (?xs ! i))"
    and mx: "\<forall>j < length ?xs. snd (?xs ! j) \<le> snd (?xs ! i)"
    and first: "\<forall>j < i. snd (?xs ! j) < snd (?xs ! i)"
    by blast
  from i have "i = 0 \<or> i = 1 \<or> i = 2"
    by auto
  then show ?thesis
  proof (elim disjE)
    assume i0: "i = 0"
    from mx [rule_format, of 1] have "snd (?xs ! 1) \<le> snd (?xs ! i)"
      by simp
    then show ?thesis
      by (simp add: i0)
  next
    assume "i = 1"
    with s show ?thesis
      by simp
  next
    assume i2: "i = 2"
    from first [rule_format, of 1] have "snd (?xs ! 1) < snd (?xs ! i)"
      by (simp add: i2)
    then show ?thesis
      by (simp add: i2)
  qed
qed

text \<open>
  Claim C5 says that \<^verbatim>\<open>predict\<close> fails with a not-found error when no class is scored
  for a document.  The model trained on the empty corpus scores no class, and
  \<^verbatim>\<open>predict\<close> returns the label \<^verbatim>\<open>None\<close> for the document.
\<close>

theorem empty_model_predicts_none:
  "parse_training_data [] = Inr (0, [], [(''total'', 0)])
   \<and> calculate_probability [] 0 [(''total'', 0)] [''x''] = Inr [[]]
   \<and> predict (0, [], [(''total'', 0)]) [''x''] = Inr [None]"
  by (simp add: score_defs parse_training_data_def init_state_def)

text \<open>
  Claim C5, amended.  Whenever scoring succeeds, \<^verbatim>\<open>predict\<close> succeeds too; a document
  for which no class is scored gets the label \<^verbatim>\<open>None\<close>.  This does not occur when the
  model has a class other than the key \<^verbatim>\<open>'total'\<close>: then every score mapping is
  non-empty and every label is a class.
\<close>

theorem no_class_scored_gives_none:
  assumes "calculate_probability wcs vocab ccs docs = Inr probs"
  shows "predict (vocab, wcs, ccs) docs = Inr (map select_class probs)
     \<and> (\<forall>p \<in> set probs. p = [] \<longrightarrow> select_class p = None)
     \<and> ((\<exists>item \<in> set wcs. fst item \<noteq> ''total'') \<longrightarrow>
          (\<forall>p \<in> set probs. p \<noteq> [] \<and> select_class p \<noteq> None))"
proof (intro conjI)
  show "predict (vocab, wcs, ccs) docs = Inr (map select_class probs)"
    by (simp add: predict_eq assms bind_res_def)
  show "\<forall>p \<in> set probs. p = [] \<longrightarrow> select_class p = None"
    by (simp add: select_class_Nil)
  show "(\<exists>item \<in> set wcs. fst item \<noteq> ''total'') \<longrightarrow>
          (\<forall>p \<in> set probs. p \<noteq> [] \<and> select_class p \<noteq> None)"
    using scored_nonempty [OF _ assms] select_class_nonempty by blast
qed

theorem no_class_scored_gives_none_witness:
  "predict (0, [], [(''total'', 0)]) [''x'', ''y''] = Inr [None, None]
   \<and> predict (1, [(''a'', WordDict [(''x'', 1)]), (''total'', WordTotal 1)],
               [(''a'', 1), (''total'', 1)]) [''x''] = Inr [Some ''a'']
   \<and> select_class [(''a'', 0 :: real)] \<noteq> None"
proof -
  let ?wcs = "[(''a'', WordDict [(''x'', 1)]), (''total'', WordTotal 1)]"
  let ?ccs = "[(''a'', 1), (''total'', 1)] :: (string, int) dict"
  have c0: "calculate_probability [] 0 [(''total'', 0)] [''x'', ''y''] = Inr [[], []]"
    by (simp add: score_defs)
  have c1: "calculate_probability ?wcs 1 ?ccs [''x''] = Inr [[(''a'', 0)]]"
    by (simp add: score_defs)
  have r: "\<exists>item \<in> set ?wcs. fst item \<noteq> ''total''"
    by simp
  from no_class_scored_gives_none [OF c0]
  have p0: "predict (0, [], [(''total'', 0)]) [''x'', ''y''] = Inr [None, None]"
    by (simp add: select_class_Nil)
  from no_class_scored_gives_none [OF c1] r
  have p1: "predict (1, ?wcs, ?ccs) [''x''] = Inr (map select_class [[(''a'', 0 :: real)]])"
    and n1: "select_class [(''a'', 0 :: real)] \<noteq> None"
    by auto
  have "select_class [(''a'', 0 :: real)] = Some ''a''"
    by (simp add: select_class_def select_step_def)
  with p0 p1 n1 show ?thesis
    by simp
qed

subsection \<open>Scoring\<close>

text \<open>
  Claim C8.  For a trained model whose smoothing denominator \<open>total + vocab\<close> is strictly
  positive, every token \<open>w\<close> of a test document (also one that no class has seen) and every
  class table \<open>d\<close> of the model, the argument \<open>(count + 1) / (total + vocab)\<close> handed to
  the logarithm is computed without a failure and is strictly positive, so the logarithm is
  taken of a positive number and does not raise.
\<close>

theorem smoothed_likelihood_positive:
  assumes "parse_training_data corpus = Inr (vocab, wcs, ccs)"
    and "map_of wcs ''total'' = Some (WordTotal t)"
    and "0 < t + vocab"
    and "(cls, WordDict d) \<in> set wcs"
  shows "\<exists>q. likelihood wcs vocab (word_instance_of d (lower w)) = Inr q
           \<and> q = real_of_int (word_instance_of d (lower w) + 1) / real_of_int (t + vocab)
           \<and> 0 < q \<and> py_log q = Inr (ln q)"
proof -
  have "counts_pos wcs"
    by (rule trained_counts_pos [OF assms(1)])
  then have "\<forall>e \<in> set d. 1 \<le> snd e"
    using assms(4) unfolding counts_pos_def by fastforce
  then have n: "0 \<le> word_instance_of d (lower w)"
    by (rule word_instance_nonneg)
  let ?q = "real_of_int (word_instance_of d (lower w) + 1) / real_of_int (t + vocab)"
  have l: "likelihood wcs vocab (word_instance_of d (lower w)) = Inr ?q"
    using assms(2,3) by (simp add: likelihood_def dict_get_def bind_res_def py_div_def)
  have pos: "0 < ?q"
    using n assms(3) by (simp add: divide_pos_pos)
  then have "py_log ?q = Inr (ln ?q)"
    by (simp add: py_log_def)
  with l pos show ?thesis by blast
qed

theorem smoothed_likelihood_positive_witness:
  "parse_training_data [(''spam'', [''win money now'']), (''not spam'', [''call me back''])] =
     Inr (6, [(''spam'', WordDict [(''win'', 1), (''money'', 1), (''now'', 1)]),
              (''total'', WordTotal 3),
              (''not spam'', WordDict [(''call'', 1), (''me'', 1), (''back'', 1)])],
          [(''spam'', 1), (''not spam'', 1), (''total'', 2)])
   \<and> likelihood [(''spam'', WordDict [(''win'', 1), (''money'', 1), (''now'', 1)]),
              (''total'', WordTotal 3),
              (''not spam'', WordDict [(''call'', 1), (''me'', 1), (''back'', 1)])] 6
         (word_instance_of [(''call'', 1), (''me'', 1), (''back'', 1)] (lower ''ZZZ'')) = Inr (1 / 9)
   \<and> py_log (1 / 9) = Inr (ln (1 / 9))"
proof -
  let ?wcs = "[(''spam'', WordDict [(''win'', 1), (''money'', 1), (''now'', 1)]),
              (''total'', WordTotal 3),
              (''not spam'', WordDict [(''call'', 1), (''me'', 1), (''back'', 1)])]"
  let ?d = "[(''call'', 1), (''me'', 1), (''back'', 1)] :: (string, int) dict"
  have p: "parse_training_data [(''spam'', [''win money now'']), (''not spam'', [''call me back''])] =
     Inr (6, ?wcs, [(''spam'', 1), (''not spam'', 1), (''total'', 2)])"
    by code_simp
  have m: "map_of ?wcs ''total'' = Some (WordTotal 3)"
    by simp
  have pos: "(0::int) < 3 + 6"
    by simp
  have mem: "(''not spam'', WordDict ?d) \<in> set ?wcs"
    by simp
  have w: "word_instance_of ?d (lower ''ZZZ'') = 0"
    by (simp add: word_instance_of_def lower_def lower_char_def)
  from smoothed_likelihood_positive [OF p m pos mem, of "''ZZZ''"]
  obtain q where l: "likelihood ?wcs 6 (word_instance_of ?d (lower ''ZZZ'')) = Inr q"
    and q: "q = real_of_int (word_instance_of ?d (lower ''ZZZ'') + 1) / real_of_int (3 + 6)"
    and lg: "py_log q = Inr (ln q)"
    by blast
  have "q = 1 / 9"
    unfolding q w by simp
  with l lg p show ?thesis by simp
qed

text \<open>
  Claim C3 says that scoring fails with a not-found error on a model without classes and
  raises a guarded condition when the smoothing denominator is zero.  Scoring the model
  trained on the empty corpus returns an empty score mapping; the model trained on
  \<open>{a: []}\<close> has a zero denominator and scoring it raises ZeroDivisionError, as does a
  model with a zero denominator whose document counts are positive.
\<close>

theorem unguarded_scoring:
  "calculate_probability [] 0 [(''total'', 0)] [''x''] = Inr [[]]
   \<and> parse_training_data [(''a'', [])] =
       Inr (0, [(''a'', WordDict []), (''total'', WordTotal 0)], [(''a'', 0), (''total'', 0)])
   \<and> calculate_probability [(''a'', WordDict []), (''total'', WordTotal 0)] 0
        [(''a'', 0), (''total'', 0)] [''x''] = Inl ZeroDivisionError
   \<and> calculate_probability [(''a'', WordDict []), (''total'', WordTotal 0)] 0
        [(''a'', 1), (''total'', 1)] [''x''] = Inl ZeroDivisionError"
proof (intro conjI)
  show "parse_training_data [(''a'', [])] =
       Inr (0, [(''a'', WordDict []), (''total'', WordTotal 0)], [(''a'', 0), (''total'', 0)])"
    by code_simp
qed (simp_all add: score_defs)

text \<open>
  Claim C3, amended.  Scoring has no guard.  A model without a class other than the key
  \<^verbatim>\<open>'total'\<close> is scored without a failure: every document gets the empty score mapping.
  When the smoothing denominator \<open>total + vocab\<close> is zero, the per-token likelihood raises
  ZeroDivisionError, and \<^verbatim>\<open>calculate_probability\<close> raises it for a non-empty list of
  documents when the first class of the model has a positive prior.  It raises it as well
  when the total document count is zero, as in a model trained on classes without documents.
\<close>

theorem scoring_degenerate_models:
  "((\<forall>item \<in> set wcs. fst item = ''total'') \<longrightarrow>
      calculate_probability wcs vocab ccs docs = Inr (map (\<lambda>doc. []) docs))
   \<and> (map_of wcs ''total'' = Some (WordTotal t) \<and> t + vocab = 0 \<longrightarrow>
      (\<forall>k. likelihood wcs vocab k = Inl ZeroDivisionError))
   \<and> (map_of wcs ''total'' = Some (WordTotal t) \<and> t + vocab = 0 \<and> docs \<noteq> [] \<and>
      (\<exists>c d rest n m. wcs = (c, WordDict d) # rest \<and> c \<noteq> ''total'' \<and>
         map_of ccs c = Some n \<and> map_of ccs ''total'' = Some m \<and> 0 < n \<and> 0 < m) \<longrightarrow>
      calculate_probability wcs vocab ccs docs = Inl ZeroDivisionError)
   \<and> (docs \<noteq> [] \<and>
      (\<exists>c e rest n. wcs = (c, e) # rest \<and> c \<noteq> ''total'' \<and>
         map_of ccs c = Some n \<and> map_of ccs ''total'' = Some 0) \<longrightarrow>
      calculate_probability wcs vocab ccs docs = Inl ZeroDivisionError)"
proof (intro conjI impI)
  assume "\<forall>item \<in> set wcs. fst item = ''total''"
  then show "calculate_probability wcs vocab ccs docs = Inr (map (\<lambda>doc. []) docs)"
    by (simp add: calculate_probability_def score_doc_loop_no_class)
next
  assume "map_of wcs ''total'' = Some (WordTotal t) \<and> t + vocab = 0"
  then show "\<forall>k. likelihood wcs vocab k = Inl ZeroDivisionError"
    by (simp add: likelihood_def dict_get_def bind_res_def py_div_def)
next
  assume a: "map_of wcs ''total'' = Some (WordTotal t) \<and> t + vocab = 0 \<and> docs \<noteq> [] \<and>
      (\<exists>c d rest n m. wcs = (c, WordDict d) # rest \<and> c \<noteq> ''total'' \<and>
         map_of ccs c = Some n \<and> map_of ccs ''total'' = Some m \<and> 0 < n \<and> 0 < m)"
  then obtain c d rest n m where w: "wcs = (c, WordDict d) # rest" and c: "c \<noteq> ''total''"
    and n: "map_of ccs c = Some n" and m: "map_of ccs ''total'' = Some m"
    and pos: "0 < n" "0 < m"
    by blast
  from a obtain doc ds where docs: "docs = doc # ds"
    by (cases docs) auto
  from a have t: "map_of ((c, WordDict d) # rest) ''total'' = Some (WordTotal t)"
    and z: "t + vocab = 0"
    unfolding w by blast+
  show "calculate_probability wcs vocab ccs docs = Inl ZeroDivisionError"
    unfolding w docs by (rule first_class_zero_denominator [OF c n m pos t z])
next
  assume a: "docs \<noteq> [] \<and>
      (\<exists>c e rest n. wcs = (c, e) # rest \<and> c \<noteq> ''total'' \<and>
         map_of ccs c = Some n \<and> map_of ccs ''total'' = Some 0)"
  then obtain c e rest n where w: "wcs = (c, e) # rest" and c: "c \<noteq> ''total''"
    and n: "map_of ccs c = Some n" and m: "map_of ccs ''total'' = Some 0"
    by blast
  from a obtain doc ds where docs: "docs = doc # ds"
    by (cases docs) auto
  show "calculate_probability wcs vocab ccs docs = Inl ZeroDivisionError"
    unfolding w docs by (rule first_class_zero_prior [OF c n m])
qed

theorem scoring_degenerate_models_witness:
  "calculate_probability [] 0 [(''total'', 0)] [''x'', ''y''] = Inr [[], []]
   \<and> likelihood [(''a'', WordDict []), (''total'', WordTotal 0)] 0 0 = Inl ZeroDivisionError
   \<and> calculate_probability [(''a'', WordDict []), (''total'', WordTotal 0)] 0
        [(''a'', 1), (''total'', 1)] [''x''] = Inl ZeroDivisionError
   \<and> calculate_probability [(''a'', WordDict []), (''total'', WordTotal 0)] 0
        [(''a'', 0), (''total'', 0)] [''x''] = Inl ZeroDivisionError"
proof -
  let ?wcs = "[(''a'', WordDict []), (''total'', WordTotal 0)]"
  let ?c1 = "[(''a'', 1), (''total'', 1)] :: (string, int) dict"
  let ?c0 = "[(''a'', 0), (''total'', 0)] :: (string, int) dict"
  have h1: "\<forall>item \<in> set ([] :: (string, wc_value) dict). fst item = ''total''"
    by simp
  have h2: "map_of ?wcs ''total'' = Some (WordTotal 0) \<and> (0 :: int) + 0 = 0"
    by simp
  have e3: "\<exists>c d rest n m. ?wcs = (c, WordDict d) # rest \<and> c \<noteq> ''total'' \<and>
         map_of ?c1 c = Some n \<and> map_of ?c1 ''total'' = Some m \<and> 0 < n \<and> 0 < m"
    by (rule exI [of _ "''a''"], rule exI [of _ "[]"],
        rule exI [of _ "[(''total'', WordTotal 0)]"], rule exI [of _ 1], rule exI [of _ 1]) simp
  have h3: "map_of ?wcs ''total'' = Some (WordTotal 0) \<and> (0 :: int) + 0 = 0 \<and> [''x''] \<noteq> [] \<and>
      (\<exists>c d rest n m. ?wcs = (c, WordDict d) # rest \<and> c \<noteq> ''total'' \<and>
         map_of ?c1 c = Some n \<and> map_of ?c1 ''total'' = Some m \<and> 0 < n \<and> 0 < m)"
    by (intro conjI e3) simp_all
  have e4: "\<exists>c e rest n. ?wcs = (c, e) # rest \<and> c \<noteq> ''total'' \<and>
         map_of ?c0 c = Some n \<and> map_of ?c0 ''total'' = Some 0"
    by (rule exI [of _ "''a''"], rule exI [of _ "WordDict []"],
        rule exI [of _ "[(''total'', WordTotal 0)]"], rule exI [of _ 0]) simp
  have h4: "[''x''] \<noteq> [] \<and>
      (\<exists>c e rest n. ?wcs = (c, e) # rest \<and> c \<noteq> ''total'' \<and>
         map_of ?c0 c = Some n \<and> map_of ?c0 ''total'' = Some 0)"
    by (intro conjI e4) simp
  note t0 = scoring_degenerate_models [of "[]" 0 "[(''total'', 0)]" "[''x'', ''y'']" 0]
  note t1 = scoring_degenerate_models [of ?wcs 0 ?c1 "[''x'']" 0]
  note t2 = scoring_degenerate_models [of ?wcs 0 ?c0 "[''x'']" 0]
  have "calculate_probability [] 0 [(''total'', 0)] [''x'', ''y''] =
      Inr (map (\<lambda>doc. []) [''x'', ''y''])"
    by (rule mp [OF t0 [THEN conjunct1] h1])
  then have a: "calculate_probability [] 0 [(''total'', 0)] [''x'', ''y''] = Inr [[], []]"
    by simp
  have "\<forall>k. likelihood ?wcs 0 k = Inl ZeroDivisionError"
    by (rule mp [OF t1 [THEN conjunct2, THEN conjunct1] h2])
  then have b: "likelihood ?wcs 0 0 = Inl ZeroDivisionError"
    by (rule spec)
  have c: "calculate_probability ?wcs 0 ?c1 [''x''] = Inl ZeroDivisionError"
    by (rule mp [OF t1 [THEN conjunct2, THEN conjunct2, THEN conjunct1] h3])
  have d: "calculate_probability ?wcs 0 ?c0 [''x''] = Inl ZeroDivisionError"
    by (rule mp [OF t2 [THEN conjunct2, THEN conjunct2, THEN conjunct2] h4])
  show ?thesis
    by (intro conjI a b c d)
qed

subsection \<open>An end-to-end scenario\<close>

text \<open>
  Claim C9.  Training on \<open>{spam: [win money now], not spam: [call me back]}\<close> and
  classifying \<open>win money\<close> predicts \<open>spam\<close>, in either iteration order of the two classes:
  the score of \<open>spam\<close>, the log prior plus the two log likelihoods, exceeds the score of
  \<open>not spam\<close>.
\<close>

theorem spam_scenario:
  "bind_res (parse_training_data [(''spam'', [''win money now'']), (''not spam'', [''call me back''])])
     (\<lambda>parsed_obj. predict parsed_obj [''win money'']) = Inr [Some ''spam'']
   \<and> bind_res (parse_training_data [(''not spam'', [''call me back'']), (''spam'', [''win money now''])])
     (\<lambda>parsed_obj. predict parsed_obj [''win money'']) = Inr [Some ''spam'']
   \<and> calculate_probability
        [(''spam'', WordDict [(''win'', 1), (''money'', 1), (''now'', 1)]),
         (''total'', WordTotal 3),
         (''not spam'', WordDict [(''call'', 1), (''me'', 1), (''back'', 1)])] 6
        [(''spam'', 1), (''not spam'', 1), (''total'', 2)] [''win money'']
      = Inr [[(''spam'', ln (1 / 2) + ln (2 / 9) + ln (2 / 9)),
              (''not spam'', ln (1 / 2) + ln (1 / 9) + ln (1 / 9))]]
   \<and> ln (1 / 2) + ln (1 / 9) + ln (1 / 9) < ln (1 / 2) + ln (2 / 9) + ln (2 / 9 :: real)"
proof (intro conjI)
  show "bind_res (parse_training_data [(''spam'', [''win money now'']), (''not spam'', [''call me back''])])
     (\<lambda>parsed_obj. predict parsed_obj [''win money'']) = Inr [Some ''spam'']"
    by (simp add: parse_spam) (simp add: score_defs)
  show "bind_res (parse_training_data [(''not spam'', [''call me back'']), (''spam'', [''win money now''])])
     (\<lambda>parsed_obj. predict parsed_obj [''win money'']) = Inr [Some ''spam'']"
    by (simp add: parse_spam_rev) (simp add: score_defs)
  show "calculate_probability
        [(''spam'', WordDict [(''win'', 1), (''money'', 1), (''now'', 1)]),
         (''total'', WordTotal 3),
         (''not spam'', WordDict [(''call'', 1), (''me'', 1), (''back'', 1)])] 6
        [(''spam'', 1), (''not spam'', 1), (''total'', 2)] [''win money'']
      = Inr [[(''spam'', ln (1 / 2) + ln (2 / 9) + ln (2 / 9)),
              (''not spam'', ln (1 / 2) + ln (1 / 9) + ln (1 / 9))]]"
    by (simp add: score_defs)
  show "ln (1 / 2) + ln (1 / 9) + ln (1 / 9) < ln (1 / 2) + ln (2 / 9) + ln (2 / 9 :: real)"
    by simp
qed

end
